theory Spec2Isabelle
  imports Main "HOL-Library.Word"
begin

section \<open>Faults, constants and C strings\<close>

text \<open>
  The ways in which a call of \<^verbatim>\<open>cubeb_log.cpp\<close> does not return: a failed
  \<^verbatim>\<open>assert\<close> (only in a build without \<^verbatim>\<open>NDEBUG\<close>), a call or member access
  through a null pointer, and \<^verbatim>\<open>std::terminate\<close> (assigning to a joinable
  \<^verbatim>\<open>std::thread\<close>).
\<close>

datatype fault = AssertFailed | NullDeref | Terminate

definition and_then :: "fault + 'a \<Rightarrow> ('a \<Rightarrow> fault + 'b) \<Rightarrow> fault + 'b" where
  "and_then r f = (case r of Inl e \<Rightarrow> Inl e | Inr x \<Rightarrow> f x)"

definition CUBEB_LOG_MESSAGE_MAX_SIZE :: nat where
  "CUBEB_LOG_MESSAGE_MAX_SIZE = 256"

definition CUBEB_LOG_MESSAGE_QUEUE_DEPTH :: nat where
  "CUBEB_LOG_MESSAGE_QUEUE_DEPTH = 40"

definition NUL :: char where
  "NUL = CHR 0x00"

text \<open>
  A \<^verbatim>\<open>char const *\<close> is modelled by the bytes found at the pointer. The C string it
  denotes ends before the first zero byte; a list that holds none stands for memory whose
  terminator is the byte after the list.
\<close>

definition c_str :: "char list \<Rightarrow> string" where
  "c_str p = takeWhile (\<lambda>c. c \<noteq> NUL) p"

definition strlen :: "char list \<Rightarrow> nat" where
  "strlen p = length (c_str p)"

text \<open>
  Modelled from the spec: \<^verbatim>\<open>PodCopy\<close> is declared in \<^verbatim>\<open>cubeb_utils.h\<close>, which is not
  part of the source at hand. The constructor uses it for the bounded copy-in of the text:
  the first \<open>n\<close> bytes of the destination are replaced by the first \<open>n\<close> bytes of the source.
\<close>

definition PodCopy :: "char list \<Rightarrow> char list \<Rightarrow> nat \<Rightarrow> char list" where
  "PodCopy destination source n = take n source @ drop n destination"

section \<open>The message: class \<^verbatim>\<open>cubeb_log_message\<close>\<close>

record cubeb_log_message =
  storage :: "char list"

text \<open>
  Neither constructor has a member initialiser for \<^verbatim>\<open>storage\<close>, so the array starts
  with whatever the object's memory held. That memory is the argument \<open>mem\<close>
  (\<^verbatim>\<open>CUBEB_LOG_MESSAGE_MAX_SIZE\<close> bytes). \<open>ndebug\<close> says whether the build defines
  \<^verbatim>\<open>NDEBUG\<close>, which compiles the assertions out.
\<close>

definition cubeb_log_message_default :: "char list \<Rightarrow> cubeb_log_message" where
  "cubeb_log_message_default mem = \<lparr>storage = mem[0 := NUL]\<rparr>"

definition cubeb_log_message_str :: "bool \<Rightarrow> char list \<Rightarrow> char list \<Rightarrow> fault + cubeb_log_message" where
  "cubeb_log_message_str ndebug mem str =
     (let len = strlen str in
      if \<not> ndebug \<and> \<not> len < CUBEB_LOG_MESSAGE_MAX_SIZE then Inl AssertFailed
      else if len > CUBEB_LOG_MESSAGE_MAX_SIZE - 1 then Inr \<lparr>storage = mem\<rparr>
      else Inr \<lparr>storage = (PodCopy mem str len)[len := NUL]\<rparr>)"

text \<open>\<^verbatim>\<open>get()\<close> returns the pointer to the storage; its text is \<open>c_str\<close> of it.\<close>

definition get :: "cubeb_log_message \<Rightarrow> char list" where
  "get m = storage m"

section \<open>The bounded queue\<close>

text \<open>
  Modelled from the spec: \<^verbatim>\<open>lock_free_queue\<close> is declared in
  \<^verbatim>\<open>cubeb_ringbuffer.h\<close>, which is not part of the source at hand. The spec gives its
  interface: a fixed-depth FIFO with \<^verbatim>\<open>enqueue(value) -> bool\<close> (false on full, the
  value dropped), \<^verbatim>\<open>dequeue(out, max_count)\<close> returning the number of entries taken,
  and \<^verbatim>\<open>reset_thread_ids()\<close>, which only touches thread-affinity bookkeeping.
  \<open>dequeue\<close> is used with \<open>max_count = 1\<close> only: \<open>None\<close> is the count 0.
\<close>

record lock_free_queue =
  capacity :: nat
  items :: "cubeb_log_message list"

definition new_lock_free_queue :: "nat \<Rightarrow> lock_free_queue" where
  "new_lock_free_queue n = \<lparr>capacity = n, items = []\<rparr>"

definition enqueue :: "lock_free_queue \<Rightarrow> cubeb_log_message \<Rightarrow> bool \<times> lock_free_queue" where
  "enqueue q m =
     (if length (items q) < capacity q then (True, q\<lparr>items := items q @ [m]\<rparr>)
      else (False, q))"

definition dequeue :: "lock_free_queue \<Rightarrow> (cubeb_log_message \<times> lock_free_queue) option" where
  "dequeue q = (case items q of [] \<Rightarrow> None | m # ms \<Rightarrow> Some (m, q\<lparr>items := ms\<rparr>))"

definition reset_thread_ids :: "lock_free_queue \<Rightarrow> lock_free_queue" where
  "reset_thread_ids q = q"

section \<open>Global configuration and the singleton logger\<close>

text \<open>
  A \<^verbatim>\<open>cubeb_log_callback\<close> is a function pointer: \<open>None\<close> is \<^verbatim>\<open>nullptr\<close>, and the
  functions it can point to are the no-op of this file and the functions of callers.
  A \<^verbatim>\<open>cubeb_log_level\<close> is the integer value of the enumerator. What a callback is
  called with is recorded in \<open>calls\<close>, in order.
\<close>

datatype cubeb_log_callback = cubeb_noop_log_callback | user_callback nat

datatype log_arg = ArgStr string | ArgU32 "32 word"

type_synonym log_call = "cubeb_log_callback \<times> string \<times> log_arg list"

record cubeb_async_logger =
  msg_queue :: "lock_free_queue option"
  shutdown_thread :: bool
  logging_thread :: bool

text \<open>
  \<open>logging_thread\<close> is true when the \<^verbatim>\<open>std::thread\<close> member is joinable, that is
  when \<^verbatim>\<open>logging_thread.get_id() != std::thread::id()\<close>.
\<close>

record log_state =
  g_cubeb_log_level :: int
  g_cubeb_log_callback :: "cubeb_log_callback option"
  logger :: cubeb_async_logger
  calls :: "log_call list"

text \<open>
  The two globals have static storage and no initialiser, so they start zeroed; the
  logger's members start as its default member initialisers leave them.
\<close>

definition initial_state :: log_state where
  "initial_state =
     \<lparr>g_cubeb_log_level = 0, g_cubeb_log_callback = None,
      logger = \<lparr>msg_queue = None, shutdown_thread = False, logging_thread = False\<rparr>,
      calls = []\<rparr>"

definition set_msg_queue :: "lock_free_queue option \<Rightarrow> log_state \<Rightarrow> log_state" where
  "set_msg_queue q st = st\<lparr>logger := (logger st)\<lparr>msg_queue := q\<rparr>\<rparr>"

definition set_shutdown_thread :: "bool \<Rightarrow> log_state \<Rightarrow> log_state" where
  "set_shutdown_thread b st = st\<lparr>logger := (logger st)\<lparr>shutdown_thread := b\<rparr>\<rparr>"

definition set_logging_thread :: "bool \<Rightarrow> log_state \<Rightarrow> log_state" where
  "set_logging_thread b st = st\<lparr>logger := (logger st)\<lparr>logging_thread := b\<rparr>\<rparr>"

text \<open>\<^verbatim>\<open>g_cubeb_log_callback.load()(fmt, ...)\<close>: a call through the stored pointer.\<close>

definition call_callback :: "string \<Rightarrow> log_arg list \<Rightarrow> log_state \<Rightarrow> fault + log_state" where
  "call_callback fmt args st =
     (case g_cubeb_log_callback st of
        None \<Rightarrow> Inl NullDeref
      | Some cb \<Rightarrow> Inr (st\<lparr>calls := calls st @ [(cb, fmt, args)]\<rparr>))"

definition cubeb_log_internal_no_format :: "char list \<Rightarrow> log_state \<Rightarrow> fault + log_state" where
  "cubeb_log_internal_no_format msg st = call_callback (c_str msg) [] st"

subsection \<open>Methods of \<^verbatim>\<open>cubeb_async_logger\<close>\<close>

text \<open>
  \<open>mem\<close> is the stack memory in which \<open>push\<close> constructs its local message.
\<close>

definition push :: "bool \<Rightarrow> char list \<Rightarrow> char list \<Rightarrow> log_state \<Rightarrow> fault + log_state" where
  "push ndebug mem str st =
     (case cubeb_log_message_str ndebug mem str of
        Inl e \<Rightarrow> Inl e
      | Inr msg \<Rightarrow>
          (case msg_queue (logger st) of
             None \<Rightarrow> Inl NullDeref
           | Some q \<Rightarrow> Inr (set_msg_queue (Some (snd (enqueue q msg))) st)))"

text \<open>
  The body of the thread that \<open>run\<close> spawns executes concurrently with the callers. Its
  inner loop takes one message at a time and forwards it; \<open>drain k\<close> is \<open>k\<close> scheduled
  iterations of that loop (fewer when the queue runs empty before).
\<close>

fun drain :: "nat \<Rightarrow> log_state \<Rightarrow> fault + log_state" where
  "drain 0 st = Inr st"
| "drain (Suc k) st =
     (case msg_queue (logger st) of
        None \<Rightarrow> Inl NullDeref
      | Some q \<Rightarrow>
          (case dequeue q of
             None \<Rightarrow> Inr st
           | Some (msg, q') \<Rightarrow>
               (case cubeb_log_internal_no_format (get msg) (set_msg_queue (Some q') st) of
                  Inl e \<Rightarrow> Inl e
                | Inr st' \<Rightarrow> drain k st')))"

definition run :: "bool \<Rightarrow> log_state \<Rightarrow> fault + log_state" where
  "run ndebug st =
     (if \<not> ndebug \<and> logging_thread (logger st) then Inl AssertFailed
      else if \<not> ndebug \<and> msg_queue (logger st) = None then Inl AssertFailed
      else if logging_thread (logger st) then Inl Terminate
      else Inr (set_logging_thread True st))"

definition reset_producer_thread :: "log_state \<Rightarrow> fault + log_state" where
  "reset_producer_thread st =
     (case msg_queue (logger st) of
        None \<Rightarrow> Inl NullDeref
      | Some q \<Rightarrow> Inr (set_msg_queue (Some (reset_thread_ids q)) st))"

definition start :: "bool \<Rightarrow> log_state \<Rightarrow> fault + log_state" where
  "start ndebug st =
     run ndebug
       (set_shutdown_thread False
         (set_msg_queue (Some (new_lock_free_queue CUBEB_LOG_MESSAGE_QUEUE_DEPTH)) st))"

function purge_loop :: "lock_free_queue \<Rightarrow> lock_free_queue" where
  "purge_loop q = (case dequeue q of None \<Rightarrow> q | Some (msg, q') \<Rightarrow> purge_loop q')"
  by pat_completeness auto
termination
  by (relation "measure (\<lambda>q. length (items q))") (auto simp: dequeue_def split: list.splits)

declare purge_loop.simps [simp del]

definition purge_queue :: "bool \<Rightarrow> log_state \<Rightarrow> fault + log_state" where
  "purge_queue ndebug st =
     (if \<not> ndebug \<and> logging_thread (logger st) then Inl AssertFailed
      else (case msg_queue (logger st) of
              None \<Rightarrow> Inr st
            | Some q \<Rightarrow> Inr (set_msg_queue (Some (purge_loop q)) st)))"

text \<open>
  \<^verbatim>\<open>logging_thread.join()\<close> waits for the thread to leave its loops. How many queued
  messages it still forwards after the store to \<open>shutdown_thread\<close> depends on where the
  flag finds it: that number is \<open>k\<close>. The call \<^verbatim>\<open>msg_queue->reset_thread_ids()\<close> that
  follows is the body of \<open>reset_producer_thread\<close>.
\<close>

definition stop :: "bool \<Rightarrow> nat \<Rightarrow> log_state \<Rightarrow> fault + log_state" where
  "stop ndebug k st =
     (let st1 = set_shutdown_thread True st in
      if logging_thread (logger st1) then
        and_then (drain k st1) (\<lambda>st2.
        and_then (reset_producer_thread (set_logging_thread False st2)) (\<lambda>st3.
        and_then (purge_queue ndebug st3) (\<lambda>st4.
        Inr (set_msg_queue None st4))))
      else Inr st1)"

subsection \<open>Formatting entry points\<close>

text \<open>
  \<^verbatim>\<open>vsnprintf(msg, n, fmt, args)\<close> belongs to the C library: \<open>render fmt args\<close> is the
  text that the template and its arguments expand to, of which the buffer receives at
  most \<open>n - 1\<close> bytes and the terminator. The bytes after the terminator are never read.
\<close>

definition vsnprintf :: "nat \<Rightarrow> (string \<Rightarrow> 'a \<Rightarrow> string) \<Rightarrow> string \<Rightarrow> 'a \<Rightarrow> char list" where
  "vsnprintf n render fmt args = take (n - 1) (render fmt args) @ [NUL]"

definition cubeb_log_internal ::
  "(string \<Rightarrow> 'a \<Rightarrow> string) \<Rightarrow> string \<Rightarrow> 32 word \<Rightarrow> string \<Rightarrow> 'a \<Rightarrow> log_state \<Rightarrow> fault + log_state" where
  "cubeb_log_internal render file line fmt args st =
     (let msg = vsnprintf CUBEB_LOG_MESSAGE_MAX_SIZE render fmt args in
      call_callback ''%s:%d:%s'' [ArgStr file, ArgU32 line, ArgStr (c_str msg)] st)"

definition cubeb_async_log ::
  "bool \<Rightarrow> char list \<Rightarrow> (string \<Rightarrow> 'a \<Rightarrow> string) \<Rightarrow> string \<Rightarrow> 'a \<Rightarrow> log_state \<Rightarrow> fault + log_state" where
  "cubeb_async_log ndebug mem render fmt args st =
     (let msg = vsnprintf CUBEB_LOG_MESSAGE_MAX_SIZE render fmt args in
      push ndebug mem msg st)"

definition cubeb_async_log_reset_threads :: "log_state \<Rightarrow> fault + log_state" where
  "cubeb_async_log_reset_threads st =
     (if g_cubeb_log_callback st = None then Inr st else reset_producer_thread st)"

subsection \<open>\<^verbatim>\<open>cubeb_log_set\<close> and the getters\<close>

text \<open>
  The enumeration \<^verbatim>\<open>cubeb_log_level\<close> is declared in \<^verbatim>\<open>cubeb.h\<close>, which is not part
  of the source at hand, so the integer value of \<^verbatim>\<open>CUBEB_LOG_DISABLED\<close> is the
  parameter \<open>disabled\<close>. The first condition compares the level with it; the second
  condition uses the enumerator itself as a truth value, which is true when it is not 0.
\<close>

definition first_condition :: "int \<Rightarrow> int \<Rightarrow> cubeb_log_callback option \<Rightarrow> bool" where
  "first_condition disabled log_level log_callback =
     (log_callback \<noteq> None \<and> log_level \<noteq> disabled)"

definition second_condition :: "int \<Rightarrow> cubeb_log_callback option \<Rightarrow> bool" where
  "second_condition disabled log_callback = (log_callback = None \<or> disabled \<noteq> 0)"

text \<open>
  \<^verbatim>\<open>cubeb_log_set\<close> is a sequence of stores and calls. The sequence is kept as a list,
  in the order of the statements, so that the states between two statements, which other
  threads can observe, are part of the model.
\<close>

datatype set_step =
    StoreLevel int
  | StoreCallback "cubeb_log_callback option"
  | Start
  | Stop
  | PurgeQueue
  | AssertFalse

definition cubeb_log_set_steps :: "int \<Rightarrow> int \<Rightarrow> cubeb_log_callback option \<Rightarrow> set_step list" where
  "cubeb_log_set_steps disabled log_level log_callback =
     StoreLevel log_level #
     (if first_condition disabled log_level log_callback then
        [StoreCallback log_callback, Start]
      else if second_condition disabled log_callback then
        [Stop, StoreCallback (Some cubeb_noop_log_callback), PurgeQueue]
      else [AssertFalse])"

fun exec_step :: "bool \<Rightarrow> nat \<Rightarrow> set_step \<Rightarrow> log_state \<Rightarrow> fault + log_state" where
  "exec_step ndebug k (StoreLevel l) st = Inr (st\<lparr>g_cubeb_log_level := l\<rparr>)"
| "exec_step ndebug k (StoreCallback cb) st = Inr (st\<lparr>g_cubeb_log_callback := cb\<rparr>)"
| "exec_step ndebug k Start st = start ndebug st"
| "exec_step ndebug k Stop st = stop ndebug k st"
| "exec_step ndebug k PurgeQueue st = purge_queue ndebug st"
| "exec_step ndebug k AssertFalse st = (if ndebug then Inr st else Inl AssertFailed)"

fun run_steps :: "bool \<Rightarrow> nat \<Rightarrow> set_step list \<Rightarrow> log_state \<Rightarrow> fault + log_state" where
  "run_steps ndebug k [] st = Inr st"
| "run_steps ndebug k (s # ss) st =
     (case exec_step ndebug k s st of
        Inl e \<Rightarrow> Inl e
      | Inr st' \<Rightarrow> run_steps ndebug k ss st')"

definition cubeb_log_set ::
  "int \<Rightarrow> bool \<Rightarrow> nat \<Rightarrow> int \<Rightarrow> cubeb_log_callback option \<Rightarrow> log_state \<Rightarrow> fault + log_state" where
  "cubeb_log_set disabled ndebug k log_level log_callback st =
     run_steps ndebug k (cubeb_log_set_steps disabled log_level log_callback) st"

definition cubeb_log_get_level :: "log_state \<Rightarrow> int" where
  "cubeb_log_get_level st = g_cubeb_log_level st"

definition cubeb_log_get_callback :: "log_state \<Rightarrow> cubeb_log_callback option" where
  "cubeb_log_get_callback st =
     (if g_cubeb_log_callback st = Some cubeb_noop_log_callback then None
      else g_cubeb_log_callback st)"

text \<open>\<open>precedes a b xs\<close>: some occurrence of \<open>a\<close> in \<open>xs\<close> comes before one of \<open>b\<close>.\<close>

fun precedes :: "'a \<Rightarrow> 'a \<Rightarrow> 'a list \<Rightarrow> bool" where
  "precedes a b [] = False"
| "precedes a b (x # xs) = ((x = a \<and> b \<in> set xs) \<or> precedes a b xs)"

subsection \<open>States used below\<close>

text \<open>
  The state that \<^verbatim>\<open>cubeb_log_set(1, f)\<close> leaves when called first, for a caller's
  function \<open>f\<close>: the callback published, the queue allocated, the thread running.
\<close>

definition enabled_state :: log_state where
  "enabled_state =
     \<lparr>g_cubeb_log_level = 1, g_cubeb_log_callback = Some (user_callback 1),
      logger = \<lparr>msg_queue = Some (new_lock_free_queue CUBEB_LOG_MESSAGE_QUEUE_DEPTH),
                shutdown_thread = False, logging_thread = True\<rparr>,
      calls = []\<rparr>"

text \<open>
  What the functions of the file keep true of the logger: the thread is joinable exactly
  while the queue exists, and it only runs once a callback has been stored.
\<close>

definition logger_consistent :: "log_state \<Rightarrow> bool" where
  "logger_consistent st =
     (logging_thread (logger st) = (msg_queue (logger st) \<noteq> None))"

definition thread_has_callback :: "log_state \<Rightarrow> bool" where
  "thread_has_callback st =
     (if logging_thread (logger st) then g_cubeb_log_callback st \<noteq> None else True)"

section \<open>Properties of the message\<close>

lemma take_strlen: "take (strlen p) p = c_str p"
  unfolding strlen_def c_str_def by (induction p) simp_all

lemma c_str_no_NUL: "NUL \<notin> set (c_str p)"
  unfolding c_str_def by (induction p) auto

lemma c_str_terminated: "NUL \<notin> set xs \<Longrightarrow> c_str (xs @ NUL # ys) = xs"
  unfolding c_str_def by (induction xs) auto

lemma terminate_at_length:
  "length xs < length (xs @ ys) \<Longrightarrow> (xs @ ys)[length xs := v] = xs @ v # tl ys"
  by (cases ys) (simp_all add: list_update_append)

lemma copy_in_text:
  assumes "strlen str < length mem"
  shows "c_str ((PodCopy mem str (strlen str))[strlen str := NUL]) = c_str str"
proof -
  let ?n = "strlen str"
  have len: "length (c_str str) = ?n"
    by (simp add: strlen_def)
  have "drop ?n mem \<noteq> []"
    using assms by simp
  then have "(c_str str @ drop ?n mem)[length (c_str str) := NUL]
               = c_str str @ NUL # tl (drop ?n mem)"
    by (intro terminate_at_length) simp
  then have "(PodCopy mem str ?n)[?n := NUL] = c_str str @ NUL # tl (drop ?n mem)"
    by (simp add: PodCopy_def take_strlen len)
  then show ?thesis
    by (simp add: c_str_terminated c_str_no_NUL)
qed



lemma c_str_length_le: "length (c_str p) \<le> length p"
  unfolding c_str_def by (rule length_takeWhile_le)

lemma c_str_vsnprintf:
  "c_str (vsnprintf n render fmt args) = c_str (take (n - 1) (render fmt args))"
proof -
  have "c_str (xs @ [NUL]) = c_str xs" for xs
    unfolding c_str_def by (induction xs) simp_all
  then show ?thesis by (simp add: vsnprintf_def)
qed

lemma vsnprintf_fits: "0 < n \<Longrightarrow> strlen (vsnprintf n render fmt args) < n"
proof -
  assume "0 < n"
  have "strlen (vsnprintf n render fmt args) \<le> length (take (n - 1) (render fmt args))"
    unfolding strlen_def c_str_vsnprintf by (rule c_str_length_le)
  also have "\<dots> \<le> n - 1" by simp
  finally show ?thesis using \<open>0 < n\<close> by simp
qed





lemma short_text_stored:
  assumes "length mem = CUBEB_LOG_MESSAGE_MAX_SIZE"
    and "strlen str < CUBEB_LOG_MESSAGE_MAX_SIZE"
  shows "map_sum id (c_str \<circ> get) (cubeb_log_message_str ndebug mem str) = Inr (c_str str)"
proof -
  have "c_str ((PodCopy mem str (strlen str))[strlen str := NUL]) = c_str str"
    using assms by (intro copy_in_text) simp
  moreover have "\<not> strlen str > CUBEB_LOG_MESSAGE_MAX_SIZE - 1"
    using assms(2) by simp
  ultimately show ?thesis
    using assms(2) by (simp add: cubeb_log_message_str_def Let_def get_def)
qed

text \<open>
  Claim C4. A text shorter than \<^verbatim>\<open>CUBEB_LOG_MESSAGE_MAX_SIZE\<close>, the empty one
  included, is read back from the constructed message as it was given, in both builds
  and whatever the memory of the message held before.
\<close>

theorem message_round_trip:
  assumes "length mem = CUBEB_LOG_MESSAGE_MAX_SIZE"
    and "strlen str < CUBEB_LOG_MESSAGE_MAX_SIZE"
  shows "map_sum id (c_str \<circ> get) (cubeb_log_message_str ndebug mem str) = Inr (c_str str)"
  using assms by (rule short_text_stored)

theorem message_round_trip_witness:
  "length (replicate 256 (CHR ''x'')) = CUBEB_LOG_MESSAGE_MAX_SIZE
   \<and> strlen ''x=5'' < CUBEB_LOG_MESSAGE_MAX_SIZE
   \<and> map_sum id (c_str \<circ> get)
        (cubeb_log_message_str False (replicate 256 (CHR ''x'')) ''x=5'') = Inr ''x=5''
   \<and> strlen [] < CUBEB_LOG_MESSAGE_MAX_SIZE
   \<and> map_sum id (c_str \<circ> get)
        (cubeb_log_message_str False (replicate 256 (CHR ''x'')) []) = Inr []"
proof -
  have a: "length (replicate 256 (CHR ''x'')) = CUBEB_LOG_MESSAGE_MAX_SIZE"
    by (simp add: CUBEB_LOG_MESSAGE_MAX_SIZE_def)
  have b: "strlen ''x=5'' < CUBEB_LOG_MESSAGE_MAX_SIZE"
    by (simp add: strlen_def c_str_def NUL_def CUBEB_LOG_MESSAGE_MAX_SIZE_def)
  have c: "strlen [] < CUBEB_LOG_MESSAGE_MAX_SIZE"
    by (simp add: strlen_def c_str_def NUL_def CUBEB_LOG_MESSAGE_MAX_SIZE_def)
  have d: "c_str ''x=5'' = ''x=5''" "c_str [] = []"
    by (simp_all add: c_str_def NUL_def)
  show ?thesis
    using a b c message_round_trip [OF a b, of False] message_round_trip [OF a c, of False]
    by (simp add: d)
qed

section \<open>Properties of the logger\<close>

lemma purge_loop_empties: "items (purge_loop q) = [] \<and> capacity (purge_loop q) = capacity q"
proof (induction q rule: purge_loop.induct)
  case (1 q)
  show ?case
  proof (cases "items q")
    case Nil
    then show ?thesis by (simp add: purge_loop.simps [of q] dequeue_def)
  next
    case (Cons m ms)
    then have d: "dequeue q = Some (m, q\<lparr>items := ms\<rparr>)"
      by (simp add: dequeue_def)
    then have "purge_loop q = purge_loop (q\<lparr>items := ms\<rparr>)"
      by (simp add: purge_loop.simps [of q])
    with "1.IH" [of "(m, q\<lparr>items := ms\<rparr>)" m "q\<lparr>items := ms\<rparr>"] d show ?thesis
      by simp
  qed
qed

lemma call_callback_keeps:
  "call_callback fmt args st = Inr st' \<Longrightarrow>
   logger st' = logger st \<and> g_cubeb_log_callback st' = g_cubeb_log_callback st
   \<and> g_cubeb_log_level st' = g_cubeb_log_level st"
  by (auto simp: call_callback_def split: option.splits)

lemma drain_keeps:
  "drain k st = Inr st' \<Longrightarrow>
   shutdown_thread (logger st') = shutdown_thread (logger st)
   \<and> logging_thread (logger st') = logging_thread (logger st)
   \<and> g_cubeb_log_callback st' = g_cubeb_log_callback st
   \<and> g_cubeb_log_level st' = g_cubeb_log_level st
   \<and> (msg_queue (logger st') = None) = (msg_queue (logger st) = None)"
proof (induction k arbitrary: st)
  case 0
  then show ?case by simp
next
  case (Suc k)
  show ?case
  proof (cases "msg_queue (logger st)")
    case None
    with Suc.prems show ?thesis by simp
  next
    case (Some q)
    show ?thesis
    proof (cases "dequeue q")
      case None
      with Some Suc.prems show ?thesis by simp
    next
      case (Some mq)
      obtain msg q' where mq: "mq = (msg, q')" by (cases mq)
      let ?st1 = "set_msg_queue (Some q') st"
      from Suc.prems \<open>msg_queue (logger st) = Some q\<close> Some mq
      obtain st2 where fwd: "cubeb_log_internal_no_format (get msg) ?st1 = Inr st2"
        and rest: "drain k st2 = Inr st'"
        by (auto split: sum.splits)
      from fwd have "logger st2 = logger ?st1 \<and> g_cubeb_log_callback st2 = g_cubeb_log_callback ?st1
          \<and> g_cubeb_log_level st2 = g_cubeb_log_level ?st1"
        unfolding cubeb_log_internal_no_format_def by (rule call_callback_keeps)
      with Suc.IH [OF rest] \<open>msg_queue (logger st) = Some q\<close> show ?thesis
        by (simp add: set_msg_queue_def)
    qed
  qed
qed

lemma drain_returns:
  "g_cubeb_log_callback st \<noteq> None \<Longrightarrow> msg_queue (logger st) \<noteq> None \<Longrightarrow> \<exists>st'. drain k st = Inr st'"
proof (induction k arbitrary: st)
  case 0
  then show ?case by simp
next
  case (Suc k)
  from Suc.prems obtain q cb where q: "msg_queue (logger st) = Some q"
    and cb: "g_cubeb_log_callback st = Some cb" by auto
  show ?case
  proof (cases "dequeue q")
    case None
    with q show ?thesis by simp
  next
    case (Some mq)
    obtain msg q' where mq: "mq = (msg, q')" by (cases mq)
    let ?st1 = "set_msg_queue (Some q') st"
    let ?st2 = "?st1\<lparr>calls := calls ?st1 @ [(cb, c_str (get msg), [])]\<rparr>"
    have fwd: "cubeb_log_internal_no_format (get msg) ?st1 = Inr ?st2"
      using cb by (simp add: cubeb_log_internal_no_format_def call_callback_def set_msg_queue_def)
    have "\<exists>st'. drain k ?st2 = Inr st'"
      using cb by (intro Suc.IH) (simp_all add: set_msg_queue_def)
    with q Some mq fwd show ?thesis by simp
  qed
qed

lemma stop_when_stopped:
  "\<not> logging_thread (logger st) \<Longrightarrow> stop ndebug k st = Inr (set_shutdown_thread True st)"
  by (simp add: stop_def Let_def set_shutdown_thread_def)

lemma stop_result:
  assumes "stop ndebug k st = Inr st'"
  shows "\<not> logging_thread (logger st') \<and> shutdown_thread (logger st')
         \<and> g_cubeb_log_callback st' = g_cubeb_log_callback st
         \<and> g_cubeb_log_level st' = g_cubeb_log_level st
         \<and> (if logging_thread (logger st) then msg_queue (logger st') = None
            else msg_queue (logger st') = msg_queue (logger st))"
proof (cases "logging_thread (logger st)")
  case False
  with assms show ?thesis
    by (auto simp: stop_when_stopped set_shutdown_thread_def)
next
  case True
  let ?st1 = "set_shutdown_thread True st"
  from True assms obtain st2 st3 st4 where
    d: "drain k ?st1 = Inr st2"
    and r: "reset_producer_thread (set_logging_thread False st2) = Inr st3"
    and p: "purge_queue ndebug st3 = Inr st4"
    and e: "st' = set_msg_queue None st4"
    by (auto simp: stop_def Let_def and_then_def set_shutdown_thread_def split: sum.splits)
  note k = drain_keeps [OF d]
  from r have s3: "shutdown_thread (logger st3) \<and> \<not> logging_thread (logger st3)
      \<and> g_cubeb_log_callback st3 = g_cubeb_log_callback st
      \<and> g_cubeb_log_level st3 = g_cubeb_log_level st"
    using k by (auto simp: reset_producer_thread_def set_msg_queue_def set_logging_thread_def
        set_shutdown_thread_def split: option.splits)
  from p s3 have "shutdown_thread (logger st4) \<and> \<not> logging_thread (logger st4)
      \<and> g_cubeb_log_callback st4 = g_cubeb_log_callback st
      \<and> g_cubeb_log_level st4 = g_cubeb_log_level st"
    by (auto simp: purge_queue_def set_msg_queue_def split: option.splits if_splits)
  with e True show ?thesis
    by (simp add: set_msg_queue_def)
qed

lemma stop_returns:
  assumes "logger_consistent st" and "thread_has_callback st"
  shows "\<exists>st'. stop ndebug k st = Inr st'"
proof (cases "logging_thread (logger st)")
  case False
  then show ?thesis by (simp add: stop_when_stopped)
next
  case True
  let ?st1 = "set_shutdown_thread True st"
  from True assms have "g_cubeb_log_callback ?st1 \<noteq> None" "msg_queue (logger ?st1) \<noteq> None"
    by (simp_all add: logger_consistent_def thread_has_callback_def set_shutdown_thread_def)
  then obtain st2 where d: "drain k ?st1 = Inr st2"
    using drain_returns by blast
  note k = drain_keeps [OF d]
  from k \<open>msg_queue (logger ?st1) \<noteq> None\<close> obtain q where q: "msg_queue (logger st2) = Some q"
    by auto
  let ?st3 = "set_msg_queue (Some (reset_thread_ids q)) (set_logging_thread False st2)"
  have r: "reset_producer_thread (set_logging_thread False st2) = Inr ?st3"
    using q by (simp add: reset_producer_thread_def set_logging_thread_def)
  have "\<exists>st4. purge_queue ndebug ?st3 = Inr st4"
    by (simp add: purge_queue_def set_msg_queue_def set_logging_thread_def)
  then obtain st4 where p: "purge_queue ndebug ?st3 = Inr st4" ..
  show ?thesis
    using True d r p by (simp add: stop_def Let_def and_then_def set_shutdown_thread_def)
qed

lemma already_shut_down:
  "shutdown_thread (logger st) \<Longrightarrow> set_shutdown_thread True st = st"
  by (simp add: set_shutdown_thread_def)

text \<open>
  Claim C8. \<open>stop\<close> on a logger whose thread is absent returns and leaves the queue pointer
  and the thread handle as they were (it stores \<open>true\<close> to \<open>shutdown_thread\<close>, nothing
  else), and for every state \<open>stop\<close> followed by \<open>stop\<close> does what one \<open>stop\<close> does.
\<close>

theorem stop_idempotent:
  "(\<not> logging_thread (logger st) \<longrightarrow>
      (\<exists>st'. stop ndebug k st = Inr st'
         \<and> msg_queue (logger st') = msg_queue (logger st)
         \<and> logging_thread (logger st') = logging_thread (logger st)))
   \<and> and_then (stop ndebug k st) (stop ndebug k') = stop ndebug k st"
proof
  show "\<not> logging_thread (logger st) \<longrightarrow>
      (\<exists>st'. stop ndebug k st = Inr st'
         \<and> msg_queue (logger st') = msg_queue (logger st)
         \<and> logging_thread (logger st') = logging_thread (logger st))"
    by (simp add: stop_when_stopped set_shutdown_thread_def)
next
  show "and_then (stop ndebug k st) (stop ndebug k') = stop ndebug k st"
  proof (cases "stop ndebug k st")
    case (Inl e)
    then show ?thesis by (simp add: and_then_def)
  next
    case (Inr st')
    from stop_result [OF Inr] have "stop ndebug k' st' = Inr st'"
      by (simp add: stop_when_stopped already_shut_down)
    with Inr show ?thesis by (simp add: and_then_def)
  qed
qed

theorem stop_idempotent_witness:
  "\<not> logging_thread (logger initial_state)
   \<and> (\<exists>st'. stop False 3 initial_state = Inr st'
         \<and> msg_queue (logger st') = msg_queue (logger initial_state)
         \<and> logging_thread (logger st') = logging_thread (logger initial_state))
   \<and> and_then (stop False 3 initial_state) (stop False 5) = stop False 3 initial_state"
proof -
  have "\<not> logging_thread (logger initial_state)"
    by (simp add: initial_state_def)
  then show ?thesis
    using stop_idempotent [of initial_state False 3 5] by simp
qed

lemma purge_queue_stopped_no_queue:
  "msg_queue (logger st) = None \<Longrightarrow> \<not> logging_thread (logger st) \<Longrightarrow> purge_queue ndebug st = Inr st"
  by (simp add: purge_queue_def)

lemma initial_state_consistent: "logger_consistent initial_state \<and> thread_has_callback initial_state"
  by (simp add: logger_consistent_def thread_has_callback_def initial_state_def)

lemma stop_consistent:
  assumes "logger_consistent st" and "stop ndebug k st = Inr st'"
  shows "logger_consistent st' \<and> msg_queue (logger st') = None \<and> \<not> logging_thread (logger st')"
  using stop_result [OF assms(2)] assms(1)
  by (auto simp: logger_consistent_def split: if_splits)

lemma start_result:
  assumes "start ndebug st = Inr st'"
  shows "logging_thread (logger st') \<and> msg_queue (logger st') = Some (new_lock_free_queue CUBEB_LOG_MESSAGE_QUEUE_DEPTH)
     \<and> \<not> shutdown_thread (logger st')
     \<and> g_cubeb_log_callback st' = g_cubeb_log_callback st \<and> g_cubeb_log_level st' = g_cubeb_log_level st
     \<and> \<not> logging_thread (logger st)"
  using assms
  by (auto simp: start_def run_def set_msg_queue_def set_shutdown_thread_def set_logging_thread_def
      split: if_splits)

lemma start_returns:
  "\<not> logging_thread (logger st) \<Longrightarrow> \<exists>st'. start ndebug st = Inr st'"
  by (simp add: start_def run_def set_msg_queue_def set_shutdown_thread_def)

lemma purge_queue_keeps:
  assumes "purge_queue ndebug st = Inr st'"
  shows "logging_thread (logger st') = logging_thread (logger st)
     \<and> (msg_queue (logger st') = None) = (msg_queue (logger st) = None)
     \<and> g_cubeb_log_callback st' = g_cubeb_log_callback st \<and> g_cubeb_log_level st' = g_cubeb_log_level st"
  using assms
  by (auto simp: purge_queue_def set_msg_queue_def split: if_splits option.splits)

lemma enabled_state_consistent: "logger_consistent enabled_state \<and> thread_has_callback enabled_state"
  by (simp add: logger_consistent_def thread_has_callback_def enabled_state_def)

lemma stop_enabled_state:
  "stop ndebug k enabled_state =
     Inr (enabled_state\<lparr>logger := \<lparr>msg_queue = None, shutdown_thread = True, logging_thread = False\<rparr>\<rparr>)"
  by (cases k)
    (simp_all add: stop_def Let_def and_then_def enabled_state_def set_shutdown_thread_def
      set_logging_thread_def set_msg_queue_def reset_producer_thread_def purge_queue_def
      new_lock_free_queue_def dequeue_def)

text \<open>
  Claim C10. \<open>purge_queue\<close> called on a logger that holds no queue returns at once and
  changes nothing, in both builds: in the states that the functions of the file produce
  the thread is then absent too, so the assertion holds and the null test returns before
  the queue is touched. The second purge of the disable path of \<^verbatim>\<open>cubeb_log_set\<close> is
  such a call: after \<open>stop\<close> has returned the queue is released.
\<close>

theorem purge_queue_without_queue:
  "(logger_consistent st \<and> msg_queue (logger st) = None \<longrightarrow> purge_queue ndebug st = Inr st)
   \<and> (msg_queue (logger st) = None \<longrightarrow> purge_queue True st = Inr st)
   \<and> (logger_consistent st \<and> stop ndebug k st = Inr st' \<longrightarrow>
        msg_queue (logger st') = None
        \<and> purge_queue ndebug (st'\<lparr>g_cubeb_log_callback := Some cubeb_noop_log_callback\<rparr>)
            = Inr (st'\<lparr>g_cubeb_log_callback := Some cubeb_noop_log_callback\<rparr>))"
proof (intro conjI impI)
  assume "logger_consistent st \<and> msg_queue (logger st) = None"
  then show "purge_queue ndebug st = Inr st"
    by (simp add: logger_consistent_def purge_queue_stopped_no_queue)
next
  assume "msg_queue (logger st) = None"
  then show "purge_queue True st = Inr st"
    by (simp add: purge_queue_def)
next
  assume a: "logger_consistent st \<and> stop ndebug k st = Inr st'"
  then have s: "msg_queue (logger st') = None \<and> \<not> logging_thread (logger st')"
    using stop_consistent by blast
  then show "msg_queue (logger st') = None" ..
  show "purge_queue ndebug (st'\<lparr>g_cubeb_log_callback := Some cubeb_noop_log_callback\<rparr>)
            = Inr (st'\<lparr>g_cubeb_log_callback := Some cubeb_noop_log_callback\<rparr>)"
    using s by (intro purge_queue_stopped_no_queue) simp_all
qed

theorem purge_queue_without_queue_witness:
  "logger_consistent initial_state \<and> msg_queue (logger initial_state) = None
   \<and> purge_queue False initial_state = Inr initial_state
   \<and> logger_consistent enabled_state
   \<and> stop False 0 enabled_state
       = Inr (enabled_state\<lparr>logger := \<lparr>msg_queue = None, shutdown_thread = True, logging_thread = False\<rparr>\<rparr>)
   \<and> purge_queue False
        (enabled_state\<lparr>logger := \<lparr>msg_queue = None, shutdown_thread = True, logging_thread = False\<rparr>,
                       g_cubeb_log_callback := Some cubeb_noop_log_callback\<rparr>)
       = Inr (enabled_state\<lparr>logger := \<lparr>msg_queue = None, shutdown_thread = True, logging_thread = False\<rparr>,
                       g_cubeb_log_callback := Some cubeb_noop_log_callback\<rparr>)"
proof -
  have a: "logger_consistent initial_state \<and> msg_queue (logger initial_state) = None"
    by (simp add: initial_state_consistent) (simp add: initial_state_def)
  have b: "logger_consistent enabled_state \<and> stop False 0 enabled_state
       = Inr (enabled_state\<lparr>logger := \<lparr>msg_queue = None, shutdown_thread = True, logging_thread = False\<rparr>\<rparr>)"
    by (simp add: enabled_state_consistent stop_enabled_state)
  show ?thesis
    using a b purge_queue_without_queue [of initial_state False] purge_queue_without_queue [of enabled_state False 0] by simp
qed


section \<open>Properties of the configuration\<close>

lemma else_branch_iff:
  "(\<not> first_condition disabled log_level log_callback \<and> \<not> second_condition disabled log_callback)
   = (disabled = 0 \<and> log_level = 0 \<and> log_callback \<noteq> None)"
  by (auto simp: first_condition_def second_condition_def)

lemma conditions_cover_iff:
  "(\<forall>log_level log_callback.
      first_condition disabled log_level log_callback \<or> second_condition disabled log_callback)
   = (disabled \<noteq> 0)"
  by (auto simp: first_condition_def second_condition_def)

lemma conditions_not_complements:
  "\<not> (\<forall>log_level log_callback.
        first_condition disabled log_level log_callback
          = (\<not> second_condition disabled log_callback))"
proof (cases "disabled = 0")
  case True
  then have "first_condition disabled 0 (Some cubeb_noop_log_callback)
      \<noteq> (\<not> second_condition disabled (Some cubeb_noop_log_callback))"
    by (simp add: first_condition_def second_condition_def)
  then show ?thesis by blast
next
  case False
  then have "first_condition disabled 0 (Some cubeb_noop_log_callback)
      \<noteq> (\<not> second_condition disabled (Some cubeb_noop_log_callback))"
    by (simp add: first_condition_def second_condition_def)
  then show ?thesis by blast
qed

lemma set_first_use:
  "cubeb_log_set 0 ndebug k 1 (Some (user_callback 1)) initial_state = Inr enabled_state"
  by (simp add: cubeb_log_set_def cubeb_log_set_steps_def first_condition_def start_def run_def
      initial_state_def enabled_state_def set_msg_queue_def set_shutdown_thread_def
      set_logging_thread_def)

lemma cubeb_log_set_disable_path:
  assumes "logger_consistent st" and "thread_has_callback st"
    and "\<not> first_condition disabled log_level log_callback"
    and "second_condition disabled log_callback"
  shows "\<exists>st'. cubeb_log_set disabled ndebug k log_level log_callback st = Inr st'
           \<and> cubeb_log_get_callback st' = None \<and> cubeb_log_get_level st' = log_level
           \<and> \<not> logging_thread (logger st') \<and> msg_queue (logger st') = None"
proof -
  let ?st1 = "st\<lparr>g_cubeb_log_level := log_level\<rparr>"
  have c: "logger_consistent ?st1" "thread_has_callback ?st1"
    using assms(1,2) by (simp_all add: logger_consistent_def thread_has_callback_def)
  then obtain st2 where s: "stop ndebug k ?st1 = Inr st2"
    using stop_returns by blast
  note r = stop_result [OF s] stop_consistent [OF c(1) s]
  let ?st3 = "st2\<lparr>g_cubeb_log_callback := Some cubeb_noop_log_callback\<rparr>"
  have p: "purge_queue ndebug ?st3 = Inr ?st3"
    using r by (intro purge_queue_stopped_no_queue) simp_all
  have "cubeb_log_set disabled ndebug k log_level log_callback st = Inr ?st3"
    using assms(3,4) s p by (simp add: cubeb_log_set_def cubeb_log_set_steps_def)
  moreover have "cubeb_log_get_callback ?st3 = None \<and> cubeb_log_get_level ?st3 = log_level
           \<and> \<not> logging_thread (logger ?st3) \<and> msg_queue (logger ?st3) = None"
    using r by (simp add: cubeb_log_get_callback_def cubeb_log_get_level_def)
  ultimately show ?thesis by blast
qed

text \<open>
  Claim C1. \<^verbatim>\<open>cubeb_log_set\<close> with the disabled level and any callback should stop the
  logger and publish the no-op callback. With a callback that is not null the second
  condition, \<^verbatim>\<open>!log_callback || CUBEB_LOG_DISABLED\<close>, is the truth value of the
  enumerator, which is 0 (\<open>cubeb_log_set_disable_path\<close> covers a null callback and an
  enumerator that is not 0). So the call falls to the last branch: with \<^verbatim>\<open>NDEBUG\<close> it
  stores the level and nothing else, the callback stays published and the thread keeps
  running; without \<^verbatim>\<open>NDEBUG\<close> the assertion fails.
\<close>

theorem set_disabled_with_callback_keeps_callback:
  "map_sum id (\<lambda>st. (cubeb_log_get_callback st, cubeb_log_get_level st,
                       logging_thread (logger st), msg_queue (logger st) \<noteq> None))
     (cubeb_log_set 0 True 0 0 (Some (user_callback 1)) enabled_state)
   = Inr (Some (user_callback 1), 0, True, True)
   \<and> cubeb_log_set 0 False 0 0 (Some (user_callback 1)) enabled_state = Inl AssertFailed"
  by (simp add: cubeb_log_set_def cubeb_log_set_steps_def first_condition_def
      second_condition_def cubeb_log_get_callback_def cubeb_log_get_level_def enabled_state_def)

text \<open>
  Claim C2. The last branch of \<^verbatim>\<open>cubeb_log_set\<close> should be unreachable. For the
  disabled level, whose enumerator is 0, and a callback that is not null, neither of the
  two conditions holds, and the sequence of the call is the store of the level followed
  by the assertion (\<open>else_branch_iff\<close> gives every such pair).
\<close>

theorem set_else_branch_reached:
  "\<not> (first_condition 0 0 (Some (user_callback 1)) \<or> second_condition 0 (Some (user_callback 1)))
   \<and> cubeb_log_set_steps 0 0 (Some (user_callback 1)) = [StoreLevel 0, AssertFalse]
   \<and> cubeb_log_set 0 False 0 0 (Some (user_callback 1)) initial_state = Inl AssertFailed"
  by (simp add: cubeb_log_set_def cubeb_log_set_steps_def first_condition_def second_condition_def)

text \<open>
  Claim C5, as stated: in the enable path \<open>start\<close> comes before the store that publishes
  the callback. It does not.
\<close>

theorem start_not_before_publication:
  "\<not> precedes Start (StoreCallback (Some (user_callback 1)))
        (cubeb_log_set_steps 0 1 (Some (user_callback 1)))"
  by (simp add: cubeb_log_set_steps_def first_condition_def)

text \<open>
  Claim C5, amended. In the enable path the level is stored, then the callback is
  published, then \<open>start\<close> is called: when the callback becomes observable the logger
  is as the call found it.
\<close>

theorem publication_precedes_start:
  assumes "log_callback \<noteq> None" and "log_level \<noteq> disabled"
  shows "cubeb_log_set_steps disabled log_level log_callback
           = [StoreLevel log_level, StoreCallback log_callback, Start]
         \<and> precedes (StoreCallback log_callback) Start
             (cubeb_log_set_steps disabled log_level log_callback)
         \<and> run_steps ndebug k (butlast (cubeb_log_set_steps disabled log_level log_callback)) st
             = Inr (st\<lparr>g_cubeb_log_level := log_level, g_cubeb_log_callback := log_callback\<rparr>)"
  using assms by (simp add: cubeb_log_set_steps_def first_condition_def)

theorem publication_precedes_start_witness:
  "Some (user_callback 1) \<noteq> None \<and> (1::int) \<noteq> 0
   \<and> cubeb_log_set_steps 0 1 (Some (user_callback 1))
           = [StoreLevel 1, StoreCallback (Some (user_callback 1)), Start]
   \<and> precedes (StoreCallback (Some (user_callback 1))) Start
             (cubeb_log_set_steps 0 1 (Some (user_callback 1)))
   \<and> run_steps False 0 (butlast (cubeb_log_set_steps 0 1 (Some (user_callback 1)))) initial_state
             = Inr (initial_state\<lparr>g_cubeb_log_level := 1, g_cubeb_log_callback := Some (user_callback 1)\<rparr>)"
proof -
  have a: "Some (user_callback 1) \<noteq> None" and b: "(1::int) \<noteq> 0"
    by simp_all
  show ?thesis
    using a b publication_precedes_start [OF a b, of False 0 initial_state] by simp
qed

text \<open>
  Claim C6, as stated: \<^verbatim>\<open>cubeb_log_get_callback\<close> returns null exactly when the stored
  callback is the no-op. Before the first \<^verbatim>\<open>cubeb_log_set\<close> the stored pointer is null,
  and null is returned.
\<close>

theorem get_callback_absent_without_noop:
  "\<not> ((cubeb_log_get_callback initial_state = None)
        = (g_cubeb_log_callback initial_state = Some cubeb_noop_log_callback))"
  by (simp add: cubeb_log_get_callback_def initial_state_def)

text \<open>
  Claim C6, amended. \<^verbatim>\<open>cubeb_log_get_callback\<close> returns null exactly when the stored
  callback is the no-op or is null; otherwise it returns the stored callback; it never
  returns the no-op.
\<close>

theorem get_callback_hides_noop:
  "((cubeb_log_get_callback st = None)
      = (g_cubeb_log_callback st = Some cubeb_noop_log_callback \<or> g_cubeb_log_callback st = None))
   \<and> (cubeb_log_get_callback st \<noteq> None \<longrightarrow> cubeb_log_get_callback st = g_cubeb_log_callback st)
   \<and> cubeb_log_get_callback st \<noteq> Some cubeb_noop_log_callback"
  by (simp add: cubeb_log_get_callback_def)

theorem get_callback_hides_noop_witness:
  "cubeb_log_get_callback enabled_state \<noteq> None
   \<and> cubeb_log_get_callback enabled_state = g_cubeb_log_callback enabled_state
   \<and> cubeb_log_get_callback enabled_state \<noteq> Some cubeb_noop_log_callback
   \<and> cubeb_log_get_callback initial_state = None"
proof -
  have a: "cubeb_log_get_callback enabled_state \<noteq> None"
    by (simp add: cubeb_log_get_callback_def enabled_state_def)
  have b: "g_cubeb_log_callback initial_state = None"
    by (simp add: initial_state_def)
  from a get_callback_hides_noop [of enabled_state]
  have c: "cubeb_log_get_callback enabled_state = g_cubeb_log_callback enabled_state
           \<and> cubeb_log_get_callback enabled_state \<noteq> Some cubeb_noop_log_callback"
    by blast
  from b get_callback_hides_noop [of initial_state] have d: "cubeb_log_get_callback initial_state = None"
    by blast
  from a c d show ?thesis
    by blast
qed

section \<open>Properties of the formatting entry points\<close>

lemma call_callback_level:
  "call_callback fmt args (st\<lparr>g_cubeb_log_level := l\<rparr>)
     = map_sum id (\<lambda>s. s\<lparr>g_cubeb_log_level := l\<rparr>) (call_callback fmt args st)"
  by (simp add: call_callback_def split: option.splits)

lemma push_level:
  "push ndebug mem str (st\<lparr>g_cubeb_log_level := l\<rparr>)
     = map_sum id (\<lambda>s. s\<lparr>g_cubeb_log_level := l\<rparr>) (push ndebug mem str st)"
  by (simp add: push_def set_msg_queue_def split: sum.splits option.splits)

lemma push_enqueues:
  assumes "msg_queue (logger st) = Some q" and "length mem = CUBEB_LOG_MESSAGE_MAX_SIZE"
    and "strlen str < CUBEB_LOG_MESSAGE_MAX_SIZE"
  shows "\<exists>msg. c_str (get msg) = c_str str
           \<and> push ndebug mem str st = Inr (set_msg_queue (Some (snd (enqueue q msg))) st)"
proof -
  from short_text_stored [OF assms(2,3), of ndebug]
  obtain msg where m: "cubeb_log_message_str ndebug mem str = Inr msg"
    and t: "c_str (get msg) = c_str str"
    by (cases "cubeb_log_message_str ndebug mem str") auto
  from m assms(1) have "push ndebug mem str st = Inr (set_msg_queue (Some (snd (enqueue q msg))) st)"
    by (simp add: push_def)
  with t show ?thesis by blast
qed

text \<open>
  Claim C7. Neither entry point reads the level: run with any level \<open>l\<close> stored, each
  does what it does otherwise, the level apart. \<^verbatim>\<open>cubeb_log_internal\<close> calls the stored
  callback once, with the decorated template, the file, the line and the text formatted
  into the buffer; \<^verbatim>\<open>cubeb_async_log\<close> hands a message with that text to the queue of
  the logger. (A null callback, respectively a logger without queue, is dereferenced.)
\<close>

theorem entry_points_ignore_level:
  "cubeb_log_internal render file line fmt args (st\<lparr>g_cubeb_log_level := l\<rparr>)
     = map_sum id (\<lambda>s. s\<lparr>g_cubeb_log_level := l\<rparr>)
         (cubeb_log_internal render file line fmt args st)
   \<and> cubeb_async_log ndebug mem render fmt args (st\<lparr>g_cubeb_log_level := l\<rparr>)
     = map_sum id (\<lambda>s. s\<lparr>g_cubeb_log_level := l\<rparr>)
         (cubeb_async_log ndebug mem render fmt args st)
   \<and> (g_cubeb_log_callback st = Some cb \<longrightarrow>
        cubeb_log_internal render file line fmt args st
          = Inr (st\<lparr>calls := calls st @
                   [(cb, ''%s:%d:%s'',
                     [ArgStr file, ArgU32 line,
                      ArgStr (c_str (take (CUBEB_LOG_MESSAGE_MAX_SIZE - 1) (render fmt args)))])]\<rparr>))
   \<and> (msg_queue (logger st) = Some q \<and> length mem = CUBEB_LOG_MESSAGE_MAX_SIZE \<longrightarrow>
        (\<exists>msg. c_str (get msg) = c_str (take (CUBEB_LOG_MESSAGE_MAX_SIZE - 1) (render fmt args))
           \<and> cubeb_async_log ndebug mem render fmt args st
               = Inr (set_msg_queue (Some (snd (enqueue q msg))) st)))"
proof (intro conjI impI)
  show "cubeb_log_internal render file line fmt args (st\<lparr>g_cubeb_log_level := l\<rparr>)
     = map_sum id (\<lambda>s. s\<lparr>g_cubeb_log_level := l\<rparr>)
         (cubeb_log_internal render file line fmt args st)"
    by (simp add: cubeb_log_internal_def Let_def call_callback_level)
next
  show "cubeb_async_log ndebug mem render fmt args (st\<lparr>g_cubeb_log_level := l\<rparr>)
     = map_sum id (\<lambda>s. s\<lparr>g_cubeb_log_level := l\<rparr>)
         (cubeb_async_log ndebug mem render fmt args st)"
    by (simp add: cubeb_async_log_def Let_def push_level)
next
  assume "g_cubeb_log_callback st = Some cb"
  then show "cubeb_log_internal render file line fmt args st
          = Inr (st\<lparr>calls := calls st @
                   [(cb, ''%s:%d:%s'',
                     [ArgStr file, ArgU32 line,
                      ArgStr (c_str (take (CUBEB_LOG_MESSAGE_MAX_SIZE - 1) (render fmt args)))])]\<rparr>)"
    by (simp add: cubeb_log_internal_def Let_def call_callback_def c_str_vsnprintf)
next
  assume a: "msg_queue (logger st) = Some q \<and> length mem = CUBEB_LOG_MESSAGE_MAX_SIZE"
  let ?buf = "vsnprintf CUBEB_LOG_MESSAGE_MAX_SIZE render fmt args"
  have "strlen ?buf < CUBEB_LOG_MESSAGE_MAX_SIZE"
    by (rule vsnprintf_fits) (simp add: CUBEB_LOG_MESSAGE_MAX_SIZE_def)
  with a have "\<exists>msg. c_str (get msg) = c_str ?buf
           \<and> push ndebug mem ?buf st = Inr (set_msg_queue (Some (snd (enqueue q msg))) st)"
    by (intro push_enqueues) simp_all
  then show "\<exists>msg. c_str (get msg) = c_str (take (CUBEB_LOG_MESSAGE_MAX_SIZE - 1) (render fmt args))
           \<and> cubeb_async_log ndebug mem render fmt args st
               = Inr (set_msg_queue (Some (snd (enqueue q msg))) st)"
    by (simp add: cubeb_async_log_def Let_def c_str_vsnprintf)
qed

theorem entry_points_ignore_level_witness:
  "g_cubeb_log_callback enabled_state = Some (user_callback 1)
   \<and> cubeb_log_internal (\<lambda>f a. f @ a) ''a.cpp'' 7 ''x='' ''5'' enabled_state
       = Inr (enabled_state\<lparr>calls := calls enabled_state @
               [(user_callback 1, ''%s:%d:%s'', [ArgStr ''a.cpp'', ArgU32 7, ArgStr ''x=5''])]\<rparr>)
   \<and> cubeb_log_internal (\<lambda>f a. f @ a) ''a.cpp'' 7 ''x='' ''5''
         (enabled_state\<lparr>g_cubeb_log_level := 0\<rparr>)
       = Inr (enabled_state\<lparr>calls := calls enabled_state @
               [(user_callback 1, ''%s:%d:%s'', [ArgStr ''a.cpp'', ArgU32 7, ArgStr ''x=5''])],
               g_cubeb_log_level := 0\<rparr>)
   \<and> msg_queue (logger enabled_state) = Some (new_lock_free_queue CUBEB_LOG_MESSAGE_QUEUE_DEPTH)
   \<and> length (replicate 256 (CHR ''z'')) = CUBEB_LOG_MESSAGE_MAX_SIZE
   \<and> (\<exists>msg. c_str (get msg) = ''x=5''
         \<and> cubeb_async_log False (replicate 256 (CHR ''z'')) (\<lambda>f a. f @ a) ''x='' ''5'' enabled_state
             = Inr (set_msg_queue
                     (Some (snd (enqueue (new_lock_free_queue CUBEB_LOG_MESSAGE_QUEUE_DEPTH) msg)))
                     enabled_state))"
proof -
  let ?r = "\<lambda>(f::string) (a::string). f @ a"
  let ?q = "new_lock_free_queue CUBEB_LOG_MESSAGE_QUEUE_DEPTH"
  let ?mem = "replicate 256 (CHR ''z'')"
  have cb: "g_cubeb_log_callback enabled_state = Some (user_callback 1)"
    by (simp add: enabled_state_def)
  have q: "msg_queue (logger enabled_state) = Some ?q \<and> length ?mem = CUBEB_LOG_MESSAGE_MAX_SIZE"
    by (simp add: enabled_state_def CUBEB_LOG_MESSAGE_MAX_SIZE_def)
  have t: "c_str (take (CUBEB_LOG_MESSAGE_MAX_SIZE - 1) (?r ''x='' ''5'')) = ''x=5''"
    by (simp add: c_str_def NUL_def CUBEB_LOG_MESSAGE_MAX_SIZE_def)
  note c7 = entry_points_ignore_level [of ?r "''a.cpp''" 7 "''x=''" "''5''" 0 enabled_state False ?mem "user_callback 1" ?q]
  from c7 cb have sync: "cubeb_log_internal ?r ''a.cpp'' 7 ''x='' ''5'' enabled_state
       = Inr (enabled_state\<lparr>calls := calls enabled_state @
               [(user_callback 1, ''%s:%d:%s'', [ArgStr ''a.cpp'', ArgU32 7, ArgStr ''x=5''])]\<rparr>)"
    unfolding t by blast
  from c7 have "cubeb_log_internal ?r ''a.cpp'' 7 ''x='' ''5'' (enabled_state\<lparr>g_cubeb_log_level := 0\<rparr>)
     = map_sum id (\<lambda>s. s\<lparr>g_cubeb_log_level := 0\<rparr>)
         (cubeb_log_internal ?r ''a.cpp'' 7 ''x='' ''5'' enabled_state)"
    by blast
  then have lvl: "cubeb_log_internal ?r ''a.cpp'' 7 ''x='' ''5'' (enabled_state\<lparr>g_cubeb_log_level := 0\<rparr>)
       = Inr (enabled_state\<lparr>calls := calls enabled_state @
               [(user_callback 1, ''%s:%d:%s'', [ArgStr ''a.cpp'', ArgU32 7, ArgStr ''x=5''])],
               g_cubeb_log_level := 0\<rparr>)"
    by (simp only: sync map_sum.simps)
  from c7 q have async: "\<exists>msg. c_str (get msg) = ''x=5''
         \<and> cubeb_async_log False ?mem ?r ''x='' ''5'' enabled_state
             = Inr (set_msg_queue (Some (snd (enqueue ?q msg))) enabled_state)"
    unfolding t by blast
  from cb sync lvl q async show ?thesis
    by blast
qed

section \<open>The invariant of the logger\<close>

text \<open>
  \<open>logger_consistent\<close> and \<open>thread_has_callback\<close> hold in the initial state
  (\<open>initial_state_consistent\<close>), and the functions of the file keep them when they
  return.
\<close>

lemma push_consistent:
  "push ndebug mem str st = Inr st' \<Longrightarrow> logger_consistent st \<Longrightarrow> thread_has_callback st \<Longrightarrow>
   logger_consistent st' \<and> thread_has_callback st'"
  by (auto simp: push_def logger_consistent_def thread_has_callback_def set_msg_queue_def
      split: sum.splits option.splits)

lemma call_callback_consistent:
  "call_callback fmt args st = Inr st' \<Longrightarrow> logger_consistent st \<Longrightarrow> thread_has_callback st \<Longrightarrow>
   logger_consistent st' \<and> thread_has_callback st'"
  using call_callback_keeps [of fmt args st st']
  by (simp add: logger_consistent_def thread_has_callback_def)

lemma drain_consistent:
  "drain k st = Inr st' \<Longrightarrow> logger_consistent st \<Longrightarrow> thread_has_callback st \<Longrightarrow>
   logger_consistent st' \<and> thread_has_callback st'"
  using drain_keeps [of k st st']
  by (simp add: logger_consistent_def thread_has_callback_def)

lemma reset_threads_consistent:
  "cubeb_async_log_reset_threads st = Inr st' \<Longrightarrow> logger_consistent st \<Longrightarrow>
   thread_has_callback st \<Longrightarrow> logger_consistent st' \<and> thread_has_callback st'"
  by (auto simp: cubeb_async_log_reset_threads_def reset_producer_thread_def
      logger_consistent_def thread_has_callback_def set_msg_queue_def
      split: if_splits option.splits)

lemma cubeb_log_set_consistent:
  assumes "cubeb_log_set disabled ndebug k log_level log_callback st = Inr st'"
    and "logger_consistent st" and "thread_has_callback st"
  shows "logger_consistent st' \<and> thread_has_callback st'"
proof -
  let ?st1 = "st\<lparr>g_cubeb_log_level := log_level\<rparr>"
  have c1: "logger_consistent ?st1" "thread_has_callback ?st1"
    using assms(2,3) by (simp_all add: logger_consistent_def thread_has_callback_def)
  consider (enable) "first_condition disabled log_level log_callback"
    | (disable) "\<not> first_condition disabled log_level log_callback"
        "second_condition disabled log_callback"
    | (neither) "\<not> first_condition disabled log_level log_callback"
        "\<not> second_condition disabled log_callback"
    by blast
  then show ?thesis
  proof cases
    case enable
    with assms(1) have "start ndebug (?st1\<lparr>g_cubeb_log_callback := log_callback\<rparr>) = Inr st'"
      by (simp add: cubeb_log_set_def cubeb_log_set_steps_def split: sum.splits)
    from start_result [OF this] enable show ?thesis
      by (simp add: logger_consistent_def thread_has_callback_def first_condition_def)
  next
    case disable
    from cubeb_log_set_disable_path [OF assms(2,3) disable, of ndebug k] assms(1)
    show ?thesis
      by (auto simp: logger_consistent_def thread_has_callback_def)
  next
    case neither
    with assms(1) have "st' = ?st1"
      by (simp add: cubeb_log_set_def cubeb_log_set_steps_def split: if_splits)
    with c1 show ?thesis by simp
  qed
qed

end
